theory Spec2Isabelle
  imports Main "HOL-Library.AList"
begin

section \<open>Cache warmer: data model\<close>

text \<open>
  The cache warmer of \<^verbatim>\<open>core/bootstrap/src/lib/cache-warmer\<close> is a set of
  redux-observable epics (\<^verbatim>\<open>epics.ts\<close>) and one selector (\<^verbatim>\<open>selectors.ts\<close>).
  Request data are JSON objects; an object is an association list in property order.
\<close>

datatype json =
    JUndefined
  | JNull
  | JNum int
  | JStr string
  | JArr "json list"
  | JObj "(string \<times> json) list"

type_synonym obj = "(string \<times> json) list"

text \<open>
  A JavaScript function object has an identity (what \<^verbatim>\<open>===\<close> compares) and a source
  text (what \<^verbatim>\<open>toString()\<close> returns). Two closures made by two calls of one factory,
  such as \<^verbatim>\<open>makeExecute\<close>, differ in identity and agree in text.
\<close>

record executor =
  fn_ref :: nat
  fn_text :: string

record debug_info =
  dbg_batchKey :: "string option"

record response_data =
  rd_results :: "(obj \<times> int) list option"

record adapter_response =
  res_maxAge :: "int option"
  res_debug :: "debug_info option"
  res_data :: "response_data option"

text \<open>\<^verbatim>\<open>WarmupExecutePayload\<close>: an adapter request with its executor and its result.\<close>

record execute_payload =
  ep_id :: string
  ep_data :: obj
  ep_executeFn :: executor
  ep_result :: "adapter_response option"

text \<open>
  \<^verbatim>\<open>WarmupSubscribedPayload\<close>: the execute payload with the optional fields
  \<^verbatim>\<open>parent\<close>, \<^verbatim>\<open>batchKey\<close>, \<^verbatim>\<open>key\<close> and \<^verbatim>\<open>childLastSeenById\<close>.
  \<open>sp_data\<close> is optional because \<^verbatim>\<open>omit(payload, ['data'])\<close> removes it.
\<close>

record subscribed_payload =
  sp_id :: string
  sp_data :: "obj option"
  sp_executeFn :: executor
  sp_result :: "adapter_response option"
  sp_parent :: "string option"
  sp_batchKey :: "string option"
  sp_key :: "string option"
  sp_childLastSeenById :: "(string \<times> nat) list option"

record join_group_payload =
  jg_childLastSeenById :: "(string \<times> nat) list"
  jg_batchKey :: string
  jg_parent :: string

record leave_group_payload =
  lg_parent :: string
  lg_batchKey :: string

datatype action =
    WarmupExecute execute_payload
  | WarmupSubscribed subscribed_payload
  | WarmupUnsubscribed string
  | WarmupStopped string
  | WarmupRequested string
  | WarmupFulfilled string
  | WarmupFailed string string
  | WarmupJoinGroup join_group_payload
  | WarmupLeaveGroup leave_group_payload
  | WarmupSubscriptionTimeoutReset string
  | OtherAction string

text \<open>The state slice \<^verbatim>\<open>state.cacheWarmer\<close>: the registry and the per-key warm-up records.\<close>

record subscription_data =
  sub_origin :: obj
  sub_executeFn :: executor
  sub_isDuplicate :: bool
  sub_parent :: "string option"
  sub_batchKey :: "string option"
  sub_childLastSeenById :: "(string \<times> nat) list option"

record warmup_data =
  wu_errorCount :: int

record cache_warmer_state =
  subscriptions :: "(string \<times> subscription_data) list"
  warmups :: "(string \<times> warmup_data) list"

record config =
  warmupInterval :: int
  unhealthyThreshold :: int
  subscriptionTTL :: nat

datatype error = TypeError string | Error string

text \<open>
  \<^verbatim>\<open>getSubscriptionKey\<close> lives in \<^verbatim>\<open>util.ts\<close>; every function below that calls it
  takes it as the parameter \<open>gsk\<close>.
\<close>

type_synonym fingerprint = "subscribed_payload \<Rightarrow> string"

section \<open>JavaScript operators used by the epics\<close>

text \<open>Truthiness of an optional string: \<^verbatim>\<open>undefined\<close> and \<^verbatim>\<open>''\<close> are falsy.\<close>

definition truthy_str :: "string option \<Rightarrow> bool" where
  "truthy_str s = (case s of None \<Rightarrow> False | Some x \<Rightarrow> x \<noteq> [])"

text \<open>\<^verbatim>\<open>a || b\<close> on an optional string and a string.\<close>

definition or_str :: "string option \<Rightarrow> string \<Rightarrow> string" where
  "or_str a b = (case a of None \<Rightarrow> b | Some x \<Rightarrow> if x \<noteq> [] then x else b)"

text \<open>\<^verbatim>\<open>a || b\<close> on an optional number and a number: \<^verbatim>\<open>undefined\<close> and \<^verbatim>\<open>0\<close> are falsy.\<close>

definition or_num :: "int option \<Rightarrow> int \<Rightarrow> int" where
  "or_num a b = (case a of None \<Rightarrow> b | Some x \<Rightarrow> if x \<noteq> 0 then x else b)"

text \<open>
  \<^verbatim>\<open>o[k]\<close> on an object: the value of its own property \<open>k\<close>, \<^verbatim>\<open>undefined\<close> when it
  has none. Properties inherited from the prototype (\<^verbatim>\<open>constructor\<close> and the like) are
  not modelled: request data are plain JSON and their keys are field names.
\<close>

definition obj_get :: "obj \<Rightarrow> string \<Rightarrow> json" where
  "obj_get kvs k = (case map_of kvs k of None \<Rightarrow> JUndefined | Some v \<Rightarrow> v)"

fun is_array :: "json \<Rightarrow> bool" where
  "is_array (JArr xs) = True"
| "is_array v = False"

text \<open>
  \<^verbatim>\<open>Object.fromEntries\<close>: a later entry for a key overwrites the earlier value and
  keeps the earlier position.
\<close>

definition fromEntries :: "(string \<times> 'v) list \<Rightarrow> (string \<times> 'v) list" where
  "fromEntries es = foldl (\<lambda>acc (k, v). AList.update k v acc) [] es"

section \<open>The selector (selectors.ts)\<close>

record batch_warmer_subscription_key =
  bw_existingKey :: bool
  bw_key :: string

text \<open>\<^verbatim>\<open>{...payload}\<close> read as a subscribed payload: the added fields are absent.\<close>

definition spread_payload :: "execute_payload \<Rightarrow> subscribed_payload" where
  "spread_payload p =
     \<lparr> sp_id = ep_id p, sp_data = Some (ep_data p), sp_executeFn = ep_executeFn p,
       sp_result = ep_result p, sp_parent = None, sp_batchKey = None, sp_key = None,
       sp_childLastSeenById = None \<rparr>"

text \<open>\<^verbatim>\<open>omit(payload, ['data'])\<close>.\<close>

definition omit_data :: "execute_payload \<Rightarrow> subscribed_payload" where
  "omit_data p = (spread_payload p)\<lparr> sp_data := None \<rparr>"

text \<open>
  The callback of \<^verbatim>\<open>find\<close>: the entry has a \<^verbatim>\<open>childLastSeenById\<close> object (any
  object is truthy) and its executor's \<^verbatim>\<open>toString()\<close> equals the payload's.
\<close>

definition isBatchWarmerMatch :: "execute_payload \<Rightarrow> string \<times> subscription_data \<Rightarrow> bool" where
  "isBatchWarmerMatch p e =
     (sub_childLastSeenById (snd e) \<noteq> None \<and>
      fn_text (sub_executeFn (snd e)) = fn_text (ep_executeFn p))"

definition selectBatchWarmerSubscriptionKey ::
  "fingerprint \<Rightarrow> cache_warmer_state \<Rightarrow> execute_payload \<Rightarrow> batch_warmer_subscription_key" where
  "selectBatchWarmerSubscriptionKey gsk st p =
     (case find (isBatchWarmerMatch p) (subscriptions st) of
        None \<Rightarrow> \<lparr> bw_existingKey = False, bw_key = gsk (omit_data p) \<rparr>
      | Some e \<Rightarrow> \<lparr> bw_existingKey = True, bw_key = fst e \<rparr>)"

section \<open>The establisher: executeHandler\<close>

text \<open>The optional chains \<^verbatim>\<open>payload.result?.debug?.batchKey\<close> and \<^verbatim>\<open>payload.result?.data?.results\<close>.\<close>

definition result_debug_batchKey :: "execute_payload \<Rightarrow> string option" where
  "result_debug_batchKey p =
     (case ep_result p of None \<Rightarrow> None
      | Some r \<Rightarrow> (case res_debug r of None \<Rightarrow> None | Some d \<Rightarrow> dbg_batchKey d))"

definition result_data_results :: "execute_payload \<Rightarrow> (obj \<times> int) list option" where
  "result_data_results p =
     (case ep_result p of None \<Rightarrow> None
      | Some r \<Rightarrow> (case res_data r of None \<Rightarrow> None | Some d \<Rightarrow> rd_results d))"

text \<open>The predicate of \<^verbatim>\<open>partition\<close>: \<^verbatim>\<open>!!val.payload.result?.debug?.batchKey\<close>.\<close>

definition isBatchExecute :: "execute_payload \<Rightarrow> bool" where
  "isBatchExecute p = truthy_str (result_debug_batchKey p)"

text \<open>
  \<^verbatim>\<open>createChildSubscriptionActions\<close>, returning the payloads of the subscribe actions it
  builds. A present \<^verbatim>\<open>results\<close> collection is truthy also when it is empty.
\<close>

definition createChildSubscriptionActions ::
  "execute_payload \<Rightarrow> string \<Rightarrow> string option \<Rightarrow> subscribed_payload list" where
  "createChildSubscriptionActions p batchWarmerSubscriptionKey batchKey =
     (let subscriptionPayload =
            (spread_payload p)\<lparr> sp_parent := Some batchWarmerSubscriptionKey, sp_batchKey := batchKey \<rparr>
      in case result_data_results p of
           Some rs \<Rightarrow> map (\<lambda>r. subscriptionPayload\<lparr> sp_data := Some (fst r) \<rparr>) rs
         | None \<Rightarrow> [subscriptionPayload])"

definition createParentSubscriptionAction ::
  "string \<Rightarrow> batch_warmer_subscription_key \<Rightarrow> (string \<times> nat) list \<Rightarrow> execute_payload \<Rightarrow> action" where
  "createParentSubscriptionAction batchKey bwk childLastSeenById p =
     (if bw_existingKey bwk then
        WarmupJoinGroup \<lparr> jg_childLastSeenById = childLastSeenById, jg_batchKey = batchKey,
                          jg_parent = bw_key bwk \<rparr>
      else
        (let subscriptionPayload =
               (spread_payload p)\<lparr> sp_batchKey := Some batchKey, sp_key := Some (bw_key bwk),
                                   sp_childLastSeenById := Some childLastSeenById \<rparr>
         in if \<not> is_array (obj_get (ep_data p) batchKey) then
              WarmupSubscribed (subscriptionPayload
                \<lparr> sp_data := Some (AList.update batchKey (JArr [obj_get (ep_data p) batchKey]) (ep_data p)) \<rparr>)
            else WarmupSubscribed subscriptionPayload))"

text \<open>
  The body of \<^verbatim>\<open>mergeMap\<close> in \<^verbatim>\<open>subscribeBatch$\<close>. \<open>clock i\<close> is what \<^verbatim>\<open>Date.now()\<close>
  returns when the \<open>i\<close>-th child is stamped. \<^verbatim>\<open>if (!batchKey) throw\<close> is the
  \<open>Inl\<close> result, taken when the key is \<^verbatim>\<open>undefined\<close> or the empty string.
\<close>

definition subscribeBatch ::
  "fingerprint \<Rightarrow> (nat \<Rightarrow> nat) \<Rightarrow> cache_warmer_state \<Rightarrow> execute_payload \<Rightarrow> error + action list" where
  "subscribeBatch gsk clock st p =
     (let batchWarmerSubscriptionKey = selectBatchWarmerSubscriptionKey gsk st p
      in case result_debug_batchKey p of
           None \<Rightarrow> Inl (Error ''No batch key found, state invariant violated'')
         | Some batchKey \<Rightarrow>
             if batchKey = [] then Inl (Error ''No batch key found, state invariant violated'')
             else
               (let childSubscriptions =
                      createChildSubscriptionActions p (bw_key batchWarmerSubscriptionKey)
                        (Some batchKey);
                    childLastSeenById =
                      fromEntries (map (\<lambda>(i, c). (gsk c, clock i)) (enumerate 0 childSubscriptions));
                    parentSubscription =
                      createParentSubscriptionAction batchKey batchWarmerSubscriptionKey
                        childLastSeenById p
                in Inr (map WarmupSubscribed childSubscriptions @ [parentSubscription])))"

text \<open>
  \<^verbatim>\<open>executeHandler\<close> on one action with the latest state: what it emits, or the error
  it throws. Actions other than \<^verbatim>\<open>warmupExecute\<close> are filtered out.
\<close>

definition executeHandler ::
  "fingerprint \<Rightarrow> (nat \<Rightarrow> nat) \<Rightarrow> cache_warmer_state \<Rightarrow> action \<Rightarrow> error + action list" where
  "executeHandler gsk clock st a =
     (case a of
        WarmupExecute p \<Rightarrow>
          (if isBatchExecute p then subscribeBatch gsk clock st p
           else Inr [WarmupSubscribed (spread_payload p)])
      | _ \<Rightarrow> Inr [])"

section \<open>Events in time\<close>

text \<open>
  An occurrence is one action on \<^verbatim>\<open>action$\<close>: the millisecond it is dispatched at and
  the value \<^verbatim>\<open>withLatestFrom(state$)\<close> pairs it with (the state after the reducers
  have seen the action). A bus is the list of occurrences in dispatch order.

  A timer firing that is due at the instant an action is dispatched is ordered after
  the action.
\<close>

record occurrence =
  oc_time :: nat
  oc_action :: action
  oc_state :: cache_warmer_state

text \<open>The \<^verbatim>\<open>match\<close> functions of the action creators.\<close>

fun match_warmupUnsubscribed :: "action \<Rightarrow> bool" where
  "match_warmupUnsubscribed (WarmupUnsubscribed k) = True"
| "match_warmupUnsubscribed a = False"

fun match_warmupStopped :: "action \<Rightarrow> bool" where
  "match_warmupStopped (WarmupStopped k) = True"
| "match_warmupStopped a = False"

text \<open>
  \<^verbatim>\<open>f || g\<close> on two function objects. \<^verbatim>\<open>||\<close> returns its left operand when that is
  truthy, and every function object is truthy.
\<close>

definition or_fn :: "('a \<Rightarrow> bool) \<Rightarrow> ('a \<Rightarrow> bool) \<Rightarrow> ('a \<Rightarrow> bool)" where
  "or_fn f g = f"

text \<open>\<^verbatim>\<open>a.payload.key\<close> of an action.\<close>

fun payload_key :: "action \<Rightarrow> string option" where
  "payload_key (WarmupSubscribed p) = sp_key p"
| "payload_key (WarmupUnsubscribed k) = Some k"
| "payload_key (WarmupStopped k) = Some k"
| "payload_key (WarmupRequested k) = Some k"
| "payload_key (WarmupFulfilled k) = Some k"
| "payload_key (WarmupFailed e k) = Some k"
| "payload_key (WarmupSubscriptionTimeoutReset k) = Some k"
| "payload_key a = None"

text \<open>The time of the first occurrence whose action satisfies a predicate.\<close>

fun first_time :: "(action \<Rightarrow> bool) \<Rightarrow> occurrence list \<Rightarrow> nat option" where
  "first_time P [] = None"
| "first_time P (oc # rest) = (if P (oc_action oc) then Some (oc_time oc) else first_time P rest)"

section \<open>The scheduler: warmupSubscriber\<close>

text \<open>\<^verbatim>\<open>payload.key || getSubscriptionKey(payload)\<close>.\<close>

definition subscriberKey :: "fingerprint \<Rightarrow> subscribed_payload \<Rightarrow> string" where
  "subscriberKey gsk p = or_str (sp_key p) (gsk p)"

text \<open>
  The filter after \<^verbatim>\<open>withLatestFrom\<close>: a child is rejected; otherwise the result is
  \<^verbatim>\<open>!state.cacheWarmer.subscriptions[key]?.isDuplicate\<close>.
\<close>

definition subscriberFilter :: "cache_warmer_state \<Rightarrow> subscribed_payload \<Rightarrow> string \<Rightarrow> bool" where
  "subscriberFilter st p k =
     (if truthy_str (sp_parent p) then False
      else \<not> (case map_of (subscriptions st) k of None \<Rightarrow> False | Some s \<Rightarrow> sub_isDuplicate s))"

text \<open>The second argument of \<^verbatim>\<open>timer\<close>: \<^verbatim>\<open>payload?.result?.maxAge || config.warmupInterval\<close>.\<close>

definition result_maxAge :: "subscribed_payload \<Rightarrow> int option" where
  "result_maxAge p = (case sp_result p of None \<Rightarrow> None | Some r \<Rightarrow> res_maxAge r)"

definition timerPeriod :: "config \<Rightarrow> subscribed_payload \<Rightarrow> int" where
  "timerPeriod cfg p = or_num (result_maxAge p) (warmupInterval cfg)"

text \<open>
  The notifier of \<^verbatim>\<open>takeUntil\<close>:
  \<^verbatim>\<open>filter(warmupUnsubscribed.match || warmupStopped.match)\<close>, then
  \<^verbatim>\<open>filter((a) => a.payload.key === key)\<close>.
\<close>

definition cancelNotifier :: "string \<Rightarrow> action \<Rightarrow> bool" where
  "cancelNotifier k a =
     ((or_fn match_warmupUnsubscribed match_warmupStopped) a \<and> payload_key a = Some k)"

text \<open>
  One inner observable of \<^verbatim>\<open>mergeMap\<close>: \<^verbatim>\<open>timer(0, period)\<close> started when the
  subscribe action is handled, cut by the first later action the notifier lets through.
\<close>

record warmup_timer =
  tm_key :: string
  tm_start :: nat
  tm_dueTime :: nat
  tm_period :: int
  tm_cancel :: "nat option"

fun warmupSubscriberTimers :: "config \<Rightarrow> fingerprint \<Rightarrow> occurrence list \<Rightarrow> warmup_timer list" where
  "warmupSubscriberTimers cfg gsk [] = []"
| "warmupSubscriberTimers cfg gsk (oc # rest) =
     (case oc_action oc of
        WarmupSubscribed p \<Rightarrow>
          (let k = subscriberKey gsk p
           in if subscriberFilter (oc_state oc) p k then
                [\<lparr> tm_key = k, tm_start = oc_time oc, tm_dueTime = 0, tm_period = timerPeriod cfg p,
                   tm_cancel = first_time (cancelNotifier k) rest \<rparr>]
              else [])
      | _ \<Rightarrow> [])
     @ warmupSubscriberTimers cfg gsk rest"

text \<open>
  The interval at which \<^verbatim>\<open>timer(dueTime, period)\<close> repeats is not always its second
  argument. The timer of rxjs replaces a period below 1 by 1
  (\<^verbatim>\<open>Number(period) < 1 && 1 || Number(period)\<close>), and the interval timer of the runtime
  replaces a delay above \<open>2^31 - 1\<close> by 1. Both are libraries, not part of these sources.
\<close>

definition timerInterval :: "int \<Rightarrow> nat" where
  "timerInterval period = (if period < 1 \<or> 2147483647 < period then 1 else nat period)"

text \<open>
  Tick \<open>i\<close> of a timer is due \<open>dueTime\<close> plus \<open>i\<close> intervals after its start. A tick is
  emitted when no cancelling action has been dispatched by the time it is due.
\<close>

definition tickTime :: "warmup_timer \<Rightarrow> nat \<Rightarrow> nat" where
  "tickTime tm i = tm_start tm + tm_dueTime tm + i * timerInterval (tm_period tm)"

definition tickEmitted :: "warmup_timer \<Rightarrow> nat \<Rightarrow> bool" where
  "tickEmitted tm i = (case tm_cancel tm of None \<Rightarrow> True | Some c \<Rightarrow> tickTime tm i < c)"

text \<open>The \<^verbatim>\<open>warmupRequested\<close> events among the first \<open>n\<close> ticks of a timer, with their times.\<close>

definition timerEvents :: "nat \<Rightarrow> warmup_timer \<Rightarrow> (nat \<times> action) list" where
  "timerEvents n tm =
     map (\<lambda>i. (tickTime tm i, WarmupRequested (tm_key tm))) (filter (tickEmitted tm) [0..<n])"

definition warmupSubscriber ::
  "config \<Rightarrow> fingerprint \<Rightarrow> nat \<Rightarrow> occurrence list \<Rightarrow> (nat \<times> action) list" where
  "warmupSubscriber cfg gsk n bus = concat (map (timerEvents n) (warmupSubscriberTimers cfg gsk bus))"

section \<open>The runner: warmupRequestHandler\<close>

text \<open>
  What the call \<^verbatim>\<open>requestData.executeFn(request)\<close> does: it returns a promise that
  resolves, it returns a promise that rejects with an error, or it throws before it
  returns.
\<close>

datatype outcome = Resolves | Rejects string | Throws string

text \<open>
  \<open>run f req\<close> is the outcome of the call \<^verbatim>\<open>f(req)\<close>; \<open>wid\<close> is the constant
  \<^verbatim>\<open>WARMUP_REQUEST_ID\<close> of \<^verbatim>\<open>config.ts\<close>. Reading \<^verbatim>\<open>executeFn\<close> of an absent
  entry, and a call that throws, both happen inside the projection of \<^verbatim>\<open>mergeMap\<close>,
  before the inner observable with its \<^verbatim>\<open>catchError\<close> exists, so the error goes to the
  epic's output stream.
\<close>

definition warmupRequestHandler ::
  "(executor \<Rightarrow> obj \<Rightarrow> outcome) \<Rightarrow> string \<Rightarrow> cache_warmer_state \<Rightarrow> action
     \<Rightarrow> error + action list" where
  "warmupRequestHandler run wid st a =
     (case a of
        WarmupRequested k \<Rightarrow>
          (case map_of (subscriptions st) k of
             None \<Rightarrow> Inl (TypeError ''Cannot read properties of undefined (reading executeFn)'')
           | Some requestData \<Rightarrow>
               (case run (sub_executeFn requestData)
                       [(''id'', JStr wid),
                        (''data'', JObj (AList.update ''maxAge'' (JNum (- 1)) (sub_origin requestData)))] of
                  Resolves \<Rightarrow> Inr [WarmupFulfilled k]
                | Rejects e \<Rightarrow> Inr [WarmupFailed e k]
                | Throws e \<Rightarrow> Inl (Error e)))
      | _ \<Rightarrow> Inr [])"

section \<open>The lifecycle policies: warmupUnsubscriber\<close>

text \<open>
  The filter of \<^verbatim>\<open>unsubscribeOnFailure$\<close> is
  \<^verbatim>\<open>state.cacheWarmer.warmups[payload.key]?.errorCount ?? 0 >= config.unhealthyThreshold\<close>.
  \<^verbatim>\<open>>=\<close> binds tighter than \<^verbatim>\<open>??\<close>, so this is
  \<^verbatim>\<open>errorCount ?? (0 >= unhealthyThreshold)\<close>: the count itself when there is one (a
  number is truthy when it is not 0), the comparison only when there is none.
\<close>

definition errorCountOf :: "cache_warmer_state \<Rightarrow> string \<Rightarrow> int option" where
  "errorCountOf st k = (case map_of (warmups st) k of None \<Rightarrow> None | Some w \<Rightarrow> Some (wu_errorCount w))"

definition failureFilter :: "config \<Rightarrow> cache_warmer_state \<Rightarrow> string \<Rightarrow> bool" where
  "failureFilter cfg st k =
     (case errorCountOf st k of
        Some n \<Rightarrow> n \<noteq> 0
      | None \<Rightarrow> 0 \<ge> unhealthyThreshold cfg)"

definition unsubscribeOnFailure :: "config \<Rightarrow> cache_warmer_state \<Rightarrow> action \<Rightarrow> action list" where
  "unsubscribeOnFailure cfg st a =
     (case a of
        WarmupFailed e k \<Rightarrow> (if failureFilter cfg st k then [WarmupUnsubscribed k] else [])
      | _ \<Rightarrow> [])"

text \<open>\<^verbatim>\<open>keyedSubscription$\<close>: the key is \<^verbatim>\<open>getSubscriptionKey(payload)\<close>, whatever \<^verbatim>\<open>payload.key\<close> is.\<close>

definition keyedSubscription :: "fingerprint \<Rightarrow> action \<Rightarrow> string option" where
  "keyedSubscription gsk a = (case a of WarmupSubscribed p \<Rightarrow> Some (gsk p) | _ \<Rightarrow> None)"

text \<open>
  \<^verbatim>\<open>race(reset$, timeout$)\<close> for a subscribe action handled at time \<open>t\<close>: \<open>reset\<close> is
  the time of the next subscribe action with the same key, if there is one;
  the timeout is due at \<open>t + subscriptionTTL\<close>. The first to emit wins and the other is
  dropped.
\<close>

definition raceResetTimeout :: "config \<Rightarrow> string \<Rightarrow> nat \<Rightarrow> nat option \<Rightarrow> nat \<times> action" where
  "raceResetTimeout cfg k t reset =
     (case reset of
        None \<Rightarrow> (t + subscriptionTTL cfg, WarmupUnsubscribed k)
      | Some r \<Rightarrow>
          if r \<le> t + subscriptionTTL cfg then (r, WarmupSubscriptionTimeoutReset k)
          else (t + subscriptionTTL cfg, WarmupUnsubscribed k))"

fun unsubscribeOnTimeout :: "config \<Rightarrow> fingerprint \<Rightarrow> occurrence list \<Rightarrow> (nat \<times> action) list" where
  "unsubscribeOnTimeout cfg gsk [] = []"
| "unsubscribeOnTimeout cfg gsk (oc # rest) =
     (case keyedSubscription gsk (oc_action oc) of
        Some k \<Rightarrow>
          [raceResetTimeout cfg k (oc_time oc)
             (first_time (\<lambda>b. keyedSubscription gsk b = Some k) rest)]
      | None \<Rightarrow> [])
     @ unsubscribeOnTimeout cfg gsk rest"

text \<open>\<^verbatim>\<open>stopOnBatch$\<close>: a stop action for every key of a present \<^verbatim>\<open>childLastSeenById\<close>.\<close>

definition stopOnBatch :: "action \<Rightarrow> action list" where
  "stopOnBatch a =
     (case a of
        WarmupSubscribed p \<Rightarrow>
          (case sp_childLastSeenById p of
             None \<Rightarrow> []
           | Some cs \<Rightarrow> map (\<lambda>c. WarmupStopped (fst c)) cs)
      | _ \<Rightarrow> [])"

text \<open>
  \<^verbatim>\<open>v.length\<close>: reading a property of \<^verbatim>\<open>undefined\<close> or \<^verbatim>\<open>null\<close> throws; an array
  and a string have a length; a number has none (\<open>None\<close> is \<^verbatim>\<open>undefined\<close>). For an
  object the property is its own \<^verbatim>\<open>length\<close> entry, read here when it is a number.
\<close>

fun js_length :: "json \<Rightarrow> error + int option" where
  "js_length JUndefined = Inl (TypeError ''Cannot read properties of undefined (reading length)'')"
| "js_length JNull = Inl (TypeError ''Cannot read properties of null (reading length)'')"
| "js_length (JArr xs) = Inr (Some (int (length xs)))"
| "js_length (JStr s) = Inr (Some (int (length s)))"
| "js_length (JNum n) = Inr None"
| "js_length (JObj kvs) =
     (case map_of kvs ''length'' of Some (JNum n) \<Rightarrow> Inr (Some n) | _ \<Rightarrow> Inr None)"

text \<open>\<^verbatim>\<open>x > 0\<close>: \<^verbatim>\<open>undefined > 0\<close> is false.\<close>

definition gt_zero :: "int option \<Rightarrow> bool" where
  "gt_zero x = (case x of None \<Rightarrow> False | Some n \<Rightarrow> n > 0)"

text \<open>
  \<^verbatim>\<open>unsubscribeOnBatchEmpty$\<close>: the filter reads
  \<^verbatim>\<open>state.cacheWarmer.subscriptions[payload.parent].origin[payload.batchKey].length > 0\<close>
  with no optional chaining.
\<close>

definition unsubscribeOnBatchEmpty :: "cache_warmer_state \<Rightarrow> action \<Rightarrow> error + action list" where
  "unsubscribeOnBatchEmpty st a =
     (case a of
        WarmupLeaveGroup lp \<Rightarrow>
          (case map_of (subscriptions st) (lg_parent lp) of
             None \<Rightarrow> Inl (TypeError ''Cannot read properties of undefined (reading origin)'')
           | Some s \<Rightarrow>
               (case js_length (obj_get (sub_origin s) (lg_batchKey lp)) of
                  Inl e \<Rightarrow> Inl e
                | Inr len \<Rightarrow>
                    if gt_zero len then Inr [WarmupUnsubscribed (lg_parent lp)] else Inr []))
      | _ \<Rightarrow> Inr [])"

section \<open>Registry application of subscribe\<close>

text \<open>
  Modelled from the spec: the reducer that applies a subscribe event to the registry is
  not among the sources. The spec says: "subscribe(payload): upsert entry at
  key=payload.key ?? fingerprint(payload); if entry exists, merge (heartbeat) rather
  than replace identity fields (executor, parent)", and of the flag: "isDuplicate: true
  if this entry's registration was deduplicated against an existing one".
\<close>

definition registrySubscribe ::
  "fingerprint \<Rightarrow> (string \<times> subscription_data) list \<Rightarrow> subscribed_payload
     \<Rightarrow> (string \<times> subscription_data) list" where
  "registrySubscribe gsk subs p =
     (let k = (case sp_key p of Some x \<Rightarrow> x | None \<Rightarrow> gsk p);
          origin = (case sp_data p of Some d \<Rightarrow> d | None \<Rightarrow> [])
      in case map_of subs k of
           None \<Rightarrow>
             AList.update k
               \<lparr> sub_origin = origin, sub_executeFn = sp_executeFn p, sub_isDuplicate = False,
                 sub_parent = sp_parent p, sub_batchKey = sp_batchKey p,
                 sub_childLastSeenById = sp_childLastSeenById p \<rparr> subs
         | Some e \<Rightarrow>
             AList.update k
               (e\<lparr> sub_origin := origin, sub_isDuplicate := True, sub_batchKey := sp_batchKey p,
                   sub_childLastSeenById := sp_childLastSeenById p \<rparr>) subs)"

section \<open>Observations on a bus\<close>

text \<open>The times at which subscribe actions of one key are dispatched, in order.\<close>

definition subscribeTimes :: "fingerprint \<Rightarrow> string \<Rightarrow> occurrence list \<Rightarrow> nat list" where
  "subscribeTimes gsk k bus =
     map oc_time (filter (\<lambda>oc. keyedSubscription gsk (oc_action oc) = Some k) bus)"

text \<open>Every subscribe time is less than \<open>ttl\<close> after the one before it.\<close>

fun spacedWithin :: "nat \<Rightarrow> nat list \<Rightarrow> bool" where
  "spacedWithin ttl (a # b # ts) = (b < a + ttl \<and> spacedWithin ttl (b # ts))"
| "spacedWithin ttl ts = True"

section \<open>Example inputs\<close>

text \<open>
  Two executors made by two calls of \<^verbatim>\<open>makeExecute\<close>: different function objects
  with the same source text.
\<close>

definition executorA :: executor where
  "executorA = \<lparr> fn_ref = 1, fn_text = ''async (request) => execute(request, config || makeConfig())'' \<rparr>"

definition executorB :: executor where
  "executorB = \<lparr> fn_ref = 2, fn_text = ''async (request) => execute(request, config || makeConfig())'' \<rparr>"

definition exampleFingerprint :: fingerprint where
  "exampleFingerprint p =
     (case sp_data p of
        None \<Rightarrow> ''group''
      | Some d \<Rightarrow> (case obj_get d ''base'' of JStr s \<Rightarrow> s | _ \<Rightarrow> ''none''))"

definition exampleConfig :: config where
  "exampleConfig = \<lparr> warmupInterval = 30000, unhealthyThreshold = 3, subscriptionTTL = 1000 \<rparr>"

definition batchPayload :: execute_payload where
  "batchPayload =
     \<lparr> ep_id = ''1'', ep_data = [(''base'', JArr [JStr ''BTC'', JStr ''ETH''])],
       ep_executeFn = executorA,
       ep_result = Some \<lparr> res_maxAge = Some 1000,
                          res_debug = Some \<lparr> dbg_batchKey = Some ''base'' \<rparr>,
                          res_data = Some \<lparr> rd_results =
                            Some [([(''base'', JStr ''BTC'')], 0), ([(''base'', JStr ''ETH'')], 1)] \<rparr> \<rparr> \<rparr>"

definition rootPayload :: "string \<Rightarrow> int option \<Rightarrow> subscribed_payload" where
  "rootPayload k age =
     \<lparr> sp_id = ''1'', sp_data = Some [(''base'', JStr k)], sp_executeFn = executorA,
       sp_result = Some \<lparr> res_maxAge = age, res_debug = None, res_data = None \<rparr>,
       sp_parent = None, sp_batchKey = None, sp_key = Some k, sp_childLastSeenById = None \<rparr>"

definition groupEntry :: "json \<Rightarrow> subscription_data" where
  "groupEntry remaining =
     \<lparr> sub_origin = [(''base'', remaining)], sub_executeFn = executorB, sub_isDuplicate = False,
       sub_parent = None, sub_batchKey = Some ''base'', sub_childLastSeenById = Some [] \<rparr>"

definition groupState :: "json \<Rightarrow> cache_warmer_state" where
  "groupState remaining = \<lparr> subscriptions = [(''G0'', groupEntry remaining)], warmups = [] \<rparr>"

definition emptyState :: cache_warmer_state where
  "emptyState = \<lparr> subscriptions = [], warmups = [] \<rparr>"

definition failingState :: "int \<Rightarrow> cache_warmer_state" where
  "failingState n = \<lparr> subscriptions = [], warmups = [(''A'', \<lparr> wu_errorCount = n \<rparr>)] \<rparr>"

definition rootEntry :: "string \<Rightarrow> subscription_data" where
  "rootEntry k =
     \<lparr> sub_origin = [(''base'', JStr k)], sub_executeFn = executorA, sub_isDuplicate = False,
       sub_parent = None, sub_batchKey = None, sub_childLastSeenById = None \<rparr>"

definition occ :: "nat \<Rightarrow> action \<Rightarrow> occurrence" where
  "occ t a = \<lparr> oc_time = t, oc_action = a, oc_state = emptyState \<rparr>"

text \<open>A first subscribe of key \<open>k\<close> at time \<open>t\<close>, with the entry it has just registered.\<close>

definition subscribeAt :: "nat \<Rightarrow> string \<Rightarrow> int option \<Rightarrow> occurrence" where
  "subscribeAt t k age =
     \<lparr> oc_time = t, oc_action = WarmupSubscribed (rootPayload k age),
       oc_state = \<lparr> subscriptions = [(k, rootEntry k)], warmups = [] \<rparr> \<rparr>"

text \<open>A subscribe of key \<open>k\<close> at time \<open>t\<close> applied to the registry \<open>subs\<close>.\<close>

definition heartbeat :: "nat \<Rightarrow> string \<Rightarrow> (string \<times> subscription_data) list \<Rightarrow> occurrence" where
  "heartbeat t k subs =
     \<lparr> oc_time = t, oc_action = WarmupSubscribed (rootPayload k (Some 1000)),
       oc_state = \<lparr> subscriptions = registrySubscribe exampleFingerprint subs (rootPayload k (Some 1000)),
                    warmups = [] \<rparr> \<rparr>"

text \<open>
  Subscribes of key A less than the time-to-live of 1000 apart, and subscribes of key A
  with a gap longer than it.
\<close>

definition steadyBus :: "occurrence list" where
  "steadyBus =
     [subscribeAt 0 ''A'' None, subscribeAt 600 ''A'' None, subscribeAt 700 ''B'' None,
      subscribeAt 1500 ''A'' None]"

definition gapBus :: "occurrence list" where
  "gapBus = [subscribeAt 0 ''A'' None, subscribeAt 5000 ''A'' None]"

text \<open>An executor run whose promise always resolves.\<close>

definition alwaysResolves :: "executor \<Rightarrow> obj \<Rightarrow> outcome" where
  "alwaysResolves f r = Resolves"

definition leaveG0 :: action where
  "leaveG0 = WarmupLeaveGroup \<lparr> lg_parent = ''G0'', lg_batchKey = ''base'' \<rparr>"

lemmas example_defs =
  executorA_def executorB_def exampleFingerprint_def exampleConfig_def batchPayload_def
  rootPayload_def groupEntry_def groupState_def emptyState_def failingState_def occ_def
  rootEntry_def subscribeAt_def heartbeat_def leaveG0_def

section \<open>Auxiliary facts\<close>

lemma existingKey_iff:
  "bw_existingKey (selectBatchWarmerSubscriptionKey gsk st p) \<longleftrightarrow>
     (\<exists>e \<in> set (subscriptions st). isBatchWarmerMatch p e)"
  by (auto simp: selectBatchWarmerSubscriptionKey_def find_None_iff find_Some_iff
           split: option.splits)

lemma first_time_insert:
  "\<not> P (oc_action oc) \<Longrightarrow> first_time P (pre @ oc # post) = first_time P (pre @ post)"
  by (induction pre) simp_all

lemma timers_insert_inert:
  assumes "\<not> match_warmupUnsubscribed (oc_action oc)"
      and "warmupSubscriberTimers cfg gsk [oc] = []"
  shows "warmupSubscriberTimers cfg gsk (pre @ oc # post) = warmupSubscriberTimers cfg gsk (pre @ post)"
proof (induction pre)
  case Nil
  from assms(2) show ?case by (cases "oc_action oc") (auto simp: Let_def split: if_splits)
next
  case (Cons x pre)
  have "first_time (cancelNotifier k) (pre @ oc # post) = first_time (cancelNotifier k) (pre @ post)" for k
    using assms(1) by (intro first_time_insert) (simp add: cancelNotifier_def or_fn_def)
  with Cons show ?case by (simp add: Let_def split: action.splits)
qed

lemma first_time_subscribeTimes:
  "first_time (\<lambda>b. keyedSubscription gsk b = Some k) bus =
     (case subscribeTimes gsk k bus of [] \<Rightarrow> None | t # ts \<Rightarrow> Some t)"
  by (induction bus) (simp_all add: subscribeTimes_def)

lemma race_other_key:
  "k' \<noteq> k \<Longrightarrow> snd (raceResetTimeout cfg k' t r) \<noteq> WarmupUnsubscribed k"
  by (simp add: raceResetTimeout_def split: option.splits)

lemma registrySubscribe_marks_duplicate:
  assumes "sp_key p \<noteq> Some []" and "map_of subs (subscriberKey gsk p) \<noteq> None"
  shows "\<exists>e. map_of (registrySubscribe gsk subs p) (subscriberKey gsk p) = Some e \<and> sub_isDuplicate e"
proof -
  have k: "subscriberKey gsk p = (case sp_key p of Some x \<Rightarrow> x | None \<Rightarrow> gsk p)"
    using assms(1) by (simp add: subscriberKey_def or_str_def split: option.splits)
  from assms(2) obtain e where e: "map_of subs (subscriberKey gsk p) = Some e" by blast
  show ?thesis
    using e unfolding registrySubscribe_def k [symmetric] Let_def
    by (simp add: update_conv')
qed

text \<open>An emitted tick among the first \<open>n\<close> is in the timer's events, at its due time.\<close>

lemma timerEvents_member:
  assumes "i < n" and "tickEmitted tm i"
  shows "(tickTime tm i, WarmupRequested (tm_key tm)) \<in> set (timerEvents n tm)"
proof -
  have "i \<in> set (filter (tickEmitted tm) [0..<n])"
    using assms by simp
  then have "(\<lambda>j. (tickTime tm j, WarmupRequested (tm_key tm))) i
               \<in> (\<lambda>j. (tickTime tm j, WarmupRequested (tm_key tm))) ` set (filter (tickEmitted tm) [0..<n])"
    by (rule imageI)
  then show ?thesis
    unfolding timerEvents_def set_map .
qed

text \<open>A stop action is not let through by the notifier, whatever its key.\<close>

lemma stop_is_inert:
  assumes "oc_action oc = WarmupStopped k"
  shows "warmupSubscriber cfg gsk n (pre @ oc # post) = warmupSubscriber cfg gsk n (pre @ post)"
proof -
  have "\<not> match_warmupUnsubscribed (oc_action oc)" and "warmupSubscriberTimers cfg gsk [oc] = []"
    using assms by simp_all
  from timers_insert_inert [OF this] show ?thesis by (simp add: warmupSubscriber_def)
qed

text \<open>With a recorded error count the failure filter does not read the threshold.\<close>

lemma failure_filter_with_count:
  "errorCountOf st k = Some n \<Longrightarrow>
     unsubscribeOnFailure cfg st (WarmupFailed e k) = (if n \<noteq> 0 then [WarmupUnsubscribed k] else [])"
  by (simp add: unsubscribeOnFailure_def failureFilter_def)

lemma leave_group_with_array:
  assumes "map_of (subscriptions st) (lg_parent lp) = Some s"
      and "obj_get (sub_origin s) (lg_batchKey lp) = JArr xs"
  shows "unsubscribeOnBatchEmpty st (WarmupLeaveGroup lp)
           = Inr (if xs \<noteq> [] then [WarmupUnsubscribed (lg_parent lp)] else [])"
  using assms by (simp add: unsubscribeOnBatchEmpty_def gt_zero_def)

section \<open>The scheduler's cancellation\<close>

text \<open>
  C1 (fails on the code): a running warm-up timer should stop emitting requested events
  for its key after a matching unsubscribe or a matching stop event. Evaluated on a
  subscribe of key A with maxAge 1000 at time 0: a stop event for A at 1500 leaves the
  ticks at 2000 and 3000 in the output, while an unsubscribe event for A at 1500 removes
  them.
\<close>

theorem stop_event_does_not_cancel_timer:
  "warmupSubscriber exampleConfig exampleFingerprint 4
     [subscribeAt 0 ''A'' (Some 1000), occ 1500 (WarmupStopped ''A'')]
   = [(0, WarmupRequested ''A''), (1000, WarmupRequested ''A''),
      (2000, WarmupRequested ''A''), (3000, WarmupRequested ''A'')]
   \<and> warmupSubscriber exampleConfig exampleFingerprint 4
     [subscribeAt 0 ''A'' (Some 1000), occ 1500 (WarmupUnsubscribed ''A'')]
   = [(0, WarmupRequested ''A''), (1000, WarmupRequested ''A'')]"
  by (simp add: warmupSubscriber_def timerEvents_def tickEmitted_def tickTime_def
        timerInterval_def subscriberKey_def subscriberFilter_def timerPeriod_def result_maxAge_def
        cancelNotifier_def or_fn_def or_str_def or_num_def truthy_str_def example_defs
        upt_conv_Cons)

section \<open>The error threshold\<close>

text \<open>
  C2 (fails on the code): an unsubscribe should be emitted on a failed event exactly when
  the key's errorCount has reached unhealthyThreshold. Evaluated with threshold 3 and
  errorCount 1: the unsubscribe is emitted.
\<close>

theorem failure_filter_ignores_threshold:
  "wu_errorCount \<lparr> wu_errorCount = 1 \<rparr> < unhealthyThreshold exampleConfig
   \<and> unsubscribeOnFailure exampleConfig (failingState 1) (WarmupFailed ''timeout'' ''A'')
       = [WarmupUnsubscribed ''A'']"
  by (simp add: unsubscribeOnFailure_def failureFilter_def errorCountOf_def example_defs)

section \<open>Absent registry entries\<close>

text \<open>
  Counterexample to C3 as stated: with an empty registry, a requested event for key A and a
  leave-group event for parent G0 each end in a thrown TypeError, not in a silent drop.
\<close>

theorem absent_key_raises_counterexample:
  "warmupRequestHandler alwaysResolves ''WARMER'' emptyState (WarmupRequested ''A'')
     = Inl (TypeError ''Cannot read properties of undefined (reading executeFn)'')
   \<and> unsubscribeOnBatchEmpty emptyState leaveG0
     = Inl (TypeError ''Cannot read properties of undefined (reading origin)'')"
  by (simp add: warmupRequestHandler_def unsubscribeOnBatchEmpty_def emptyState_def leaveG0_def)

text \<open>
  C3 (amended): for every requested event whose key has no entry in the registry at
  handling time, the runner emits nothing and throws a TypeError (it reads the executor
  of the missing entry); likewise a leave-group event naming a parent key absent from the
  registry throws a TypeError.
\<close>

theorem absent_key_raises_type_error:
  "(map_of (subscriptions st) k = None \<longrightarrow>
      (\<exists>msg. warmupRequestHandler run wid st (WarmupRequested k) = Inl (TypeError msg)))
   \<and> (map_of (subscriptions st) (lg_parent lp) = None \<longrightarrow>
      (\<exists>msg. unsubscribeOnBatchEmpty st (WarmupLeaveGroup lp) = Inl (TypeError msg)))"
  by (simp add: warmupRequestHandler_def unsubscribeOnBatchEmpty_def)

theorem absent_key_raises_type_error_witness:
  "map_of (subscriptions emptyState) ''A'' = None
   \<and> (\<exists>msg. warmupRequestHandler alwaysResolves ''WARMER'' emptyState (WarmupRequested ''A'')
               = Inl (TypeError msg))
   \<and> map_of (subscriptions emptyState) (lg_parent \<lparr> lg_parent = ''G0'', lg_batchKey = ''base'' \<rparr>) = None
   \<and> (\<exists>msg. unsubscribeOnBatchEmpty emptyState
               (WarmupLeaveGroup \<lparr> lg_parent = ''G0'', lg_batchKey = ''base'' \<rparr>)
               = Inl (TypeError msg))"
proof -
  have a: "map_of (subscriptions emptyState) ''A'' = None"
    by (simp add: emptyState_def)
  have b: "map_of (subscriptions emptyState)
             (lg_parent \<lparr> lg_parent = ''G0'', lg_batchKey = ''base'' \<rparr>) = None"
    by (simp add: emptyState_def)
  from a b absent_key_raises_type_error
         [of emptyState "''A''" alwaysResolves "''WARMER''" "\<lparr> lg_parent = ''G0'', lg_batchKey = ''base'' \<rparr>"]
  show ?thesis by blast
qed

section \<open>Resolving the group key\<close>

text \<open>
  Counterexample to C4 as stated: the registry holds a group entry whose executor is a
  different function object from the request's executor, with the same source text; the
  entry's key is reused.
\<close>

theorem group_reused_without_identity_counterexample:
  "fn_ref (ep_executeFn batchPayload) \<noteq> fn_ref (sub_executeFn (groupEntry JNull))
   \<and> selectBatchWarmerSubscriptionKey exampleFingerprint (groupState JNull) batchPayload
       = \<lparr> bw_existingKey = True, bw_key = ''G0'' \<rparr>"
  by (simp add: selectBatchWarmerSubscriptionKey_def isBatchWarmerMatch_def example_defs)

text \<open>
  C4 (amended): an existing group entry (one with childLastSeenById) is reused if and only
  if the source text of its stored executor equals the source text of the request's
  executor; the reused key is the key of such an entry; if there is no such entry, the key
  is the fingerprint of the request with its data payload removed.
\<close>

theorem group_key_reused_iff_same_source_text:
  "(bw_existingKey (selectBatchWarmerSubscriptionKey gsk st p) \<longleftrightarrow>
      (\<exists>e \<in> set (subscriptions st).
         sub_childLastSeenById (snd e) \<noteq> None
         \<and> fn_text (sub_executeFn (snd e)) = fn_text (ep_executeFn p)))
   \<and> (bw_existingKey (selectBatchWarmerSubscriptionKey gsk st p) \<longrightarrow>
      (\<exists>e \<in> set (subscriptions st).
         fst e = bw_key (selectBatchWarmerSubscriptionKey gsk st p)
         \<and> sub_childLastSeenById (snd e) \<noteq> None
         \<and> fn_text (sub_executeFn (snd e)) = fn_text (ep_executeFn p)))
   \<and> (\<not> bw_existingKey (selectBatchWarmerSubscriptionKey gsk st p) \<longrightarrow>
      bw_key (selectBatchWarmerSubscriptionKey gsk st p) = gsk (omit_data p)
      \<and> sp_data (omit_data p) = None)"
proof -
  have a: "bw_existingKey (selectBatchWarmerSubscriptionKey gsk st p) \<longleftrightarrow>
      (\<exists>e \<in> set (subscriptions st).
         sub_childLastSeenById (snd e) \<noteq> None
         \<and> fn_text (sub_executeFn (snd e)) = fn_text (ep_executeFn p))"
    using existingKey_iff [of gsk st p] by (simp add: isBatchWarmerMatch_def)
  have b: "bw_existingKey (selectBatchWarmerSubscriptionKey gsk st p) \<longrightarrow>
      (\<exists>e \<in> set (subscriptions st).
         fst e = bw_key (selectBatchWarmerSubscriptionKey gsk st p)
         \<and> sub_childLastSeenById (snd e) \<noteq> None
         \<and> fn_text (sub_executeFn (snd e)) = fn_text (ep_executeFn p))"
    by (auto simp: selectBatchWarmerSubscriptionKey_def isBatchWarmerMatch_def find_Some_iff
             split: option.splits) (metis nth_mem snd_conv fst_conv)
  have c: "\<not> bw_existingKey (selectBatchWarmerSubscriptionKey gsk st p) \<longrightarrow>
      bw_key (selectBatchWarmerSubscriptionKey gsk st p) = gsk (omit_data p)
      \<and> sp_data (omit_data p) = None"
    by (simp add: selectBatchWarmerSubscriptionKey_def omit_data_def split: option.splits)
  from a b c show ?thesis by blast
qed

theorem group_key_reused_iff_same_source_text_witness:
  "bw_existingKey (selectBatchWarmerSubscriptionKey exampleFingerprint (groupState JNull) batchPayload)
   \<and> (\<exists>e \<in> set (subscriptions (groupState JNull)).
         fst e = bw_key (selectBatchWarmerSubscriptionKey exampleFingerprint (groupState JNull) batchPayload)
         \<and> sub_childLastSeenById (snd e) \<noteq> None
         \<and> fn_text (sub_executeFn (snd e)) = fn_text (ep_executeFn batchPayload))
   \<and> \<not> bw_existingKey (selectBatchWarmerSubscriptionKey exampleFingerprint emptyState batchPayload)
   \<and> bw_key (selectBatchWarmerSubscriptionKey exampleFingerprint emptyState batchPayload)
       = exampleFingerprint (omit_data batchPayload)"
proof -
  have a: "bw_existingKey (selectBatchWarmerSubscriptionKey exampleFingerprint (groupState JNull) batchPayload)"
    by (simp add: selectBatchWarmerSubscriptionKey_def isBatchWarmerMatch_def example_defs)
  have b: "\<not> bw_existingKey (selectBatchWarmerSubscriptionKey exampleFingerprint emptyState batchPayload)"
    by (simp add: selectBatchWarmerSubscriptionKey_def emptyState_def)
  from a b group_key_reused_iff_same_source_text [of exampleFingerprint "groupState JNull" batchPayload]
       group_key_reused_iff_same_source_text [of exampleFingerprint emptyState batchPayload]
  show ?thesis by blast
qed

section \<open>Leaving a group\<close>

text \<open>
  C5 (fails on the code): on a leave-group event the parent should be unsubscribed exactly
  when the remaining collection under the batch field is empty. Evaluated on parent G0:
  with one item remaining the unsubscribe is emitted, with none remaining nothing is.
\<close>

theorem leave_group_unsubscribes_when_items_remain:
  "unsubscribeOnBatchEmpty (groupState (JArr [JStr ''BTC''])) leaveG0
     = Inr [WarmupUnsubscribed ''G0'']
   \<and> unsubscribeOnBatchEmpty (groupState (JArr [])) leaveG0 = Inr []"
  by (simp add: unsubscribeOnBatchEmpty_def obj_get_def gt_zero_def example_defs)

section \<open>The time-to-live policy\<close>

lemma spaced_subscribes_single_unsubscribe:
  assumes "spacedWithin (subscriptionTTL cfg) (subscribeTimes gsk k bus)"
  shows "filter (\<lambda>e. snd e = WarmupUnsubscribed k) (unsubscribeOnTimeout cfg gsk bus) =
           (case subscribeTimes gsk k bus of
              [] \<Rightarrow> []
            | t # ts \<Rightarrow> [(last (t # ts) + subscriptionTTL cfg, WarmupUnsubscribed k)])"
  using assms
proof (induction bus)
  case Nil
  show ?case by (simp add: subscribeTimes_def)
next
  case (Cons oc rest)
  show ?case
  proof (cases "keyedSubscription gsk (oc_action oc)")
    case None
    with Cons show ?thesis by (simp add: subscribeTimes_def)
  next
    case (Some k')
    show ?thesis
    proof (cases "k' = k")
      case False
      with Some Cons show ?thesis
        by (simp add: subscribeTimes_def race_other_key)
    next
      case True
      have ts: "subscribeTimes gsk k (oc # rest) = oc_time oc # subscribeTimes gsk k rest"
        using Some True by (simp add: subscribeTimes_def)
      show ?thesis
      proof (cases "subscribeTimes gsk k rest")
        case Nil
        with Cons Some True ts show ?thesis
          by (simp add: first_time_subscribeTimes raceResetTimeout_def)
      next
        case later: (Cons r rs)
        with Cons.IH Cons.prems Some True ts show ?thesis
          by (simp add: first_time_subscribeTimes raceResetTimeout_def)
      qed
    qed
  qed
qed

lemma no_subscribe_no_unsubscribe:
  "subscribeTimes gsk k bus = [] \<Longrightarrow>
     filter (\<lambda>e. snd e = WarmupUnsubscribed k) (unsubscribeOnTimeout cfg gsk bus) = []"
proof (induction bus)
  case Nil
  show ?case by simp
next
  case (Cons oc rest)
  from Cons.prems have key: "keyedSubscription gsk (oc_action oc) \<noteq> Some k"
    and rest: "subscribeTimes gsk k rest = []"
    by (auto simp: subscribeTimes_def split: if_splits)
  from key Cons.IH [OF rest] show ?case
    by (cases "keyedSubscription gsk (oc_action oc)") (auto simp: race_other_key)
qed

lemma unsubscribe_after_last_subscribe:
  assumes "sorted (subscribeTimes gsk k bus)" and "subscribeTimes gsk k bus \<noteq> []"
  shows "filter (\<lambda>e. snd e = WarmupUnsubscribed k \<and> last (subscribeTimes gsk k bus) \<le> fst e)
           (unsubscribeOnTimeout cfg gsk bus)
         = [(last (subscribeTimes gsk k bus) + subscriptionTTL cfg, WarmupUnsubscribed k)]"
  using assms
proof (induction bus)
  case Nil
  then show ?case by (simp add: subscribeTimes_def)
next
  case (Cons oc rest)
  note IH = Cons.IH and prems = Cons.prems
  show ?case
  proof (cases "keyedSubscription gsk (oc_action oc) = Some k")
    case False
    then have ts: "subscribeTimes gsk k (oc # rest) = subscribeTimes gsk k rest"
      by (simp add: subscribeTimes_def)
    from False have "filter (\<lambda>e. snd e = WarmupUnsubscribed k \<and> last (subscribeTimes gsk k rest) \<le> fst e)
           (unsubscribeOnTimeout cfg gsk (oc # rest))
        = filter (\<lambda>e. snd e = WarmupUnsubscribed k \<and> last (subscribeTimes gsk k rest) \<le> fst e)
           (unsubscribeOnTimeout cfg gsk rest)"
      by (cases "keyedSubscription gsk (oc_action oc)") (auto simp: race_other_key)
    with IH prems show ?thesis unfolding ts by simp
  next
    case True
    have ts: "subscribeTimes gsk k (oc # rest) = oc_time oc # subscribeTimes gsk k rest"
      using True by (simp add: subscribeTimes_def)
    show ?thesis
    proof (cases "subscribeTimes gsk k rest")
      case Nil
      have "filter (\<lambda>e. snd e = WarmupUnsubscribed k \<and> oc_time oc \<le> fst e)
              (unsubscribeOnTimeout cfg gsk rest) = []"
        using no_subscribe_no_unsubscribe [OF Nil, of cfg]
        by (simp add: filter_empty_conv)
      with True Nil ts show ?thesis
        by (simp add: first_time_subscribeTimes raceResetTimeout_def)
    next
      case ts_rest: (Cons r rs)
      have srt: "sorted (subscribeTimes gsk k rest)" and ne: "subscribeTimes gsk k rest \<noteq> []"
        and le: "r \<le> last (subscribeTimes gsk k rest)"
        using prems(1) unfolding ts ts_rest by auto
      have lst: "last (subscribeTimes gsk k (oc # rest)) = last (subscribeTimes gsk k rest)"
        unfolding ts using ne by simp
      have out: "unsubscribeOnTimeout cfg gsk (oc # rest)
                   = raceResetTimeout cfg k (oc_time oc) (Some r) # unsubscribeOnTimeout cfg gsk rest"
        using True by (simp add: first_time_subscribeTimes ts_rest)
      have hd: "\<not> (snd (raceResetTimeout cfg k (oc_time oc) (Some r)) = WarmupUnsubscribed k
                   \<and> last (subscribeTimes gsk k rest) \<le> fst (raceResetTimeout cfg k (oc_time oc) (Some r)))"
        using le by (simp add: raceResetTimeout_def)
      from IH [OF srt ne] hd show ?thesis
        unfolding lst out by simp
    qed
  qed
qed

text \<open>
  C6: when the subscribe events of a key follow each other at intervals shorter than
  subscriptionTTL, the policy emits no unsubscribe for the key while they keep arriving:
  the only one it emits is due subscriptionTTL after the last subscribe event of the key.
  Whatever the earlier intervals were, once the subscribe events of the key stop, the
  policy emits exactly one unsubscribe for it from then on, subscriptionTTL after the last
  subscribe event.
\<close>

theorem ttl_unsubscribes_once_after_last_subscribe:
  "(spacedWithin (subscriptionTTL cfg) (subscribeTimes gsk k bus) \<longrightarrow>
      filter (\<lambda>e. snd e = WarmupUnsubscribed k) (unsubscribeOnTimeout cfg gsk bus) =
        (case subscribeTimes gsk k bus of
           [] \<Rightarrow> []
         | t # ts \<Rightarrow> [(last (t # ts) + subscriptionTTL cfg, WarmupUnsubscribed k)]))
   \<and> (sorted (subscribeTimes gsk k bus) \<and> subscribeTimes gsk k bus \<noteq> [] \<longrightarrow>
      filter (\<lambda>e. snd e = WarmupUnsubscribed k \<and> last (subscribeTimes gsk k bus) \<le> fst e)
        (unsubscribeOnTimeout cfg gsk bus)
      = [(last (subscribeTimes gsk k bus) + subscriptionTTL cfg, WarmupUnsubscribed k)])"
  using spaced_subscribes_single_unsubscribe [of cfg gsk k bus]
        unsubscribe_after_last_subscribe [of gsk k bus cfg]
  by blast

theorem ttl_unsubscribes_once_after_last_subscribe_witness:
  "spacedWithin (subscriptionTTL exampleConfig) (subscribeTimes exampleFingerprint ''A'' steadyBus)
   \<and> filter (\<lambda>e. snd e = WarmupUnsubscribed ''A'')
       (unsubscribeOnTimeout exampleConfig exampleFingerprint steadyBus)
     = [(2500, WarmupUnsubscribed ''A'')]
   \<and> sorted (subscribeTimes exampleFingerprint ''A'' gapBus)
   \<and> subscribeTimes exampleFingerprint ''A'' gapBus \<noteq> []
   \<and> filter (\<lambda>e. snd e = WarmupUnsubscribed ''A''
                  \<and> last (subscribeTimes exampleFingerprint ''A'' gapBus) \<le> fst e)
       (unsubscribeOnTimeout exampleConfig exampleFingerprint gapBus)
     = [(6000, WarmupUnsubscribed ''A'')]"
proof -
  have ts: "subscribeTimes exampleFingerprint ''A'' steadyBus = [0, 600, 1500]"
    by (simp add: subscribeTimes_def keyedSubscription_def subscribeAt_def exampleFingerprint_def
          rootPayload_def obj_get_def steadyBus_def)
  have tg: "subscribeTimes exampleFingerprint ''A'' gapBus = [0, 5000]"
    by (simp add: subscribeTimes_def keyedSubscription_def subscribeAt_def exampleFingerprint_def
          rootPayload_def obj_get_def gapBus_def)
  have h: "spacedWithin (subscriptionTTL exampleConfig) (subscribeTimes exampleFingerprint ''A'' steadyBus)"
    unfolding ts by (simp add: exampleConfig_def)
  have g: "sorted (subscribeTimes exampleFingerprint ''A'' gapBus)
           \<and> subscribeTimes exampleFingerprint ''A'' gapBus \<noteq> []"
    unfolding tg by simp
  have a: "filter (\<lambda>e. snd e = WarmupUnsubscribed ''A'')
             (unsubscribeOnTimeout exampleConfig exampleFingerprint steadyBus)
           = [(2500, WarmupUnsubscribed ''A'')]"
    using ttl_unsubscribes_once_after_last_subscribe [of exampleConfig exampleFingerprint "''A''" steadyBus] h
    unfolding ts by (simp add: exampleConfig_def)
  have b: "filter (\<lambda>e. snd e = WarmupUnsubscribed ''A''
                  \<and> last (subscribeTimes exampleFingerprint ''A'' gapBus) \<le> fst e)
             (unsubscribeOnTimeout exampleConfig exampleFingerprint gapBus)
           = [(6000, WarmupUnsubscribed ''A'')]"
    using ttl_unsubscribes_once_after_last_subscribe [of exampleConfig exampleFingerprint "''A''" gapBus] g
    by (simp add: tg exampleConfig_def)
  from h g a b show ?thesis by blast
qed

section \<open>Duplicate subscribes\<close>

text \<open>
  C7: a subscribe event whose key already has a registry entry is a heartbeat for the
  scheduler. It starts no timer, and the timers of the other subscribe events (their
  start, period and cancellation) and so the requested events are the same as without it.
\<close>

theorem duplicate_subscribe_is_heartbeat:
  assumes "oc_action oc = WarmupSubscribed p"
      and "sp_key p \<noteq> Some []"
      and "map_of subs (subscriberKey gsk p) \<noteq> None"
      and "subscriptions (oc_state oc) = registrySubscribe gsk subs p"
  shows "warmupSubscriberTimers cfg gsk [oc] = []
       \<and> warmupSubscriberTimers cfg gsk (pre @ oc # post) = warmupSubscriberTimers cfg gsk (pre @ post)
       \<and> warmupSubscriber cfg gsk n (pre @ oc # post) = warmupSubscriber cfg gsk n (pre @ post)"
proof -
  from registrySubscribe_marks_duplicate [OF assms(2,3)] assms(4)
  have "\<not> subscriberFilter (oc_state oc) p (subscriberKey gsk p)"
    by (auto simp: subscriberFilter_def)
  with assms(1) have none: "warmupSubscriberTimers cfg gsk [oc] = []"
    by (simp add: Let_def)
  have "\<not> match_warmupUnsubscribed (oc_action oc)"
    using assms(1) by simp
  from timers_insert_inert [OF this none]
  have same: "warmupSubscriberTimers cfg gsk (pre @ oc # post) = warmupSubscriberTimers cfg gsk (pre @ post)" .
  from none same show ?thesis by (simp add: warmupSubscriber_def)
qed

theorem duplicate_subscribe_is_heartbeat_witness:
  "oc_action (heartbeat 400 ''A'' [(''A'', groupEntry JNull)]) = WarmupSubscribed (rootPayload ''A'' (Some 1000))
   \<and> sp_key (rootPayload ''A'' (Some 1000)) \<noteq> Some []
   \<and> map_of [(''A'', groupEntry JNull)] (subscriberKey exampleFingerprint (rootPayload ''A'' (Some 1000))) \<noteq> None
   \<and> warmupSubscriberTimers exampleConfig exampleFingerprint [heartbeat 400 ''A'' [(''A'', groupEntry JNull)]] = []
   \<and> warmupSubscriber exampleConfig exampleFingerprint 3
        ([heartbeat 0 ''A'' []] @ heartbeat 400 ''A'' [(''A'', groupEntry JNull)] # [])
      = warmupSubscriber exampleConfig exampleFingerprint 3 ([heartbeat 0 ''A'' []] @ [])"
proof -
  have a: "oc_action (heartbeat 400 ''A'' [(''A'', groupEntry JNull)])
             = WarmupSubscribed (rootPayload ''A'' (Some 1000))"
    by (simp add: heartbeat_def)
  have b: "sp_key (rootPayload ''A'' (Some 1000)) \<noteq> Some []"
    by (simp add: rootPayload_def)
  have c: "map_of [(''A'', groupEntry JNull)]
             (subscriberKey exampleFingerprint (rootPayload ''A'' (Some 1000))) \<noteq> None"
    by (simp add: subscriberKey_def or_str_def rootPayload_def)
  have d: "subscriptions (oc_state (heartbeat 400 ''A'' [(''A'', groupEntry JNull)]))
             = registrySubscribe exampleFingerprint [(''A'', groupEntry JNull)] (rootPayload ''A'' (Some 1000))"
    by (simp add: heartbeat_def)
  from duplicate_subscribe_is_heartbeat [OF a b c d, of exampleConfig "[heartbeat 0 ''A'' []]" "[]" 3] a b c
  show ?thesis by blast
qed

section \<open>The timer of a root subscription\<close>

text \<open>
  Counterexample to C8 as stated, on three root subscribe events of key A at time 0 with a
  default interval of 30000. With maxAge -1 (present, not positive) the requested events
  come at 0, 1, 2, 3: every millisecond, not at the default interval. With maxAge
  2147483648 (present and positive) they come at 0, 1, 2, 3 as well, not maxAge apart.
  With maxAge 1000 and an unsubscribe of A dispatched in the same instant as the
  subscribe, no requested event is emitted at all, not even the first.
\<close>

theorem root_timer_counterexample:
  "warmupInterval exampleConfig = 30000
   \<and> warmupSubscriber exampleConfig exampleFingerprint 4 [subscribeAt 0 ''A'' (Some (- 1))]
       = [(0, WarmupRequested ''A''), (1, WarmupRequested ''A''),
          (2, WarmupRequested ''A''), (3, WarmupRequested ''A'')]
   \<and> warmupSubscriber exampleConfig exampleFingerprint 4 [subscribeAt 0 ''A'' (Some 2147483648)]
       = [(0, WarmupRequested ''A''), (1, WarmupRequested ''A''),
          (2, WarmupRequested ''A''), (3, WarmupRequested ''A'')]
   \<and> warmupSubscriber exampleConfig exampleFingerprint 4
         [subscribeAt 0 ''A'' (Some 1000), occ 0 (WarmupUnsubscribed ''A'')]
       = []"
  by (simp add: warmupSubscriber_def timerEvents_def tickEmitted_def tickTime_def
        timerInterval_def subscriberKey_def subscriberFilter_def timerPeriod_def result_maxAge_def
        cancelNotifier_def or_fn_def or_str_def or_num_def truthy_str_def example_defs
        upt_conv_Cons)

text \<open>
  C8 (amended): for every root subscribe event that starts a timer, the period passed to
  the timer is the payload's maxAge when maxAge is present and not zero, and the
  configured warmupInterval otherwise. The ticks of the timer are that many milliseconds
  apart when the value lies between 1 and 2147483647, and one millisecond apart when it
  does not (a negative or too large maxAge; a period of zero, which fires at once and
  then repeats every millisecond). The first tick is due at the time of the subscribe
  event. The requested event of a tick is emitted, at the time the tick is due, whenever
  no unsubscribe of the key has been dispatched by then.
\<close>

theorem root_timer_period_and_first_tick:
  assumes "oc_action oc = WarmupSubscribed p"
      and "subscriberFilter (oc_state oc) p (subscriberKey gsk p)"
      and "period = (case result_maxAge p of
                       Some m \<Rightarrow> if m \<noteq> 0 then m else warmupInterval cfg
                     | None \<Rightarrow> warmupInterval cfg)"
  shows "\<exists>tm. warmupSubscriberTimers cfg gsk (oc # rest) = tm # warmupSubscriberTimers cfg gsk rest
           \<and> tm_key tm = subscriberKey gsk p
           \<and> tm_period tm = period
           \<and> (\<forall>i. tickTime tm i =
                  oc_time oc + i * (if 1 \<le> period \<and> period \<le> 2147483647 then nat period else 1))
           \<and> (period = 0 \<longrightarrow> (\<forall>i. tickTime tm i = oc_time oc + i))
           \<and> tickTime tm 0 = oc_time oc
           \<and> (\<forall>i < n.
                 (\<forall>c. first_time (cancelNotifier (subscriberKey gsk p)) rest = Some c
                        \<longrightarrow> tickTime tm i < c)
                 \<longrightarrow> (tickTime tm i, WarmupRequested (subscriberKey gsk p))
                       \<in> set (warmupSubscriber cfg gsk n (oc # rest)))"
proof -
  let ?k = "subscriberKey gsk p"
  let ?tm = "\<lparr> tm_key = ?k, tm_start = oc_time oc, tm_dueTime = 0, tm_period = timerPeriod cfg p,
               tm_cancel = first_time (cancelNotifier ?k) rest \<rparr>"
  have ts: "warmupSubscriberTimers cfg gsk (oc # rest) = ?tm # warmupSubscriberTimers cfg gsk rest"
    using assms(1,2) by (simp add: Let_def)
  have per: "tm_period ?tm = period"
    using assms(3) by (simp add: timerPeriod_def or_num_def)
  have ticks: "\<forall>i. tickTime ?tm i =
                 oc_time oc + i * (if 1 \<le> period \<and> period \<le> 2147483647 then nat period else 1)"
    using per by (auto simp: tickTime_def timerInterval_def)
  have zero: "period = 0 \<longrightarrow> (\<forall>i. tickTime ?tm i = oc_time oc + i)"
    using ticks by simp
  have t0: "tickTime ?tm 0 = oc_time oc"
    using ticks by simp
  have mem: "\<forall>i < n.
               (\<forall>c. first_time (cancelNotifier ?k) rest = Some c \<longrightarrow> tickTime ?tm i < c)
               \<longrightarrow> (tickTime ?tm i, WarmupRequested ?k) \<in> set (warmupSubscriber cfg gsk n (oc # rest))"
  proof (intro allI impI)
    fix i
    assume i: "i < n"
      and free: "\<forall>c. first_time (cancelNotifier ?k) rest = Some c \<longrightarrow> tickTime ?tm i < c"
    from free have "tickEmitted ?tm i"
      by (simp add: tickEmitted_def split: option.splits)
    from timerEvents_member [OF i this]
    have "(tickTime ?tm i, WarmupRequested ?k) \<in> set (timerEvents n ?tm)"
      by simp
    then show "(tickTime ?tm i, WarmupRequested ?k) \<in> set (warmupSubscriber cfg gsk n (oc # rest))"
      unfolding warmupSubscriber_def ts by simp
  qed
  from ts per ticks zero t0 mem show ?thesis
    by (intro exI [where x = ?tm]) simp
qed

theorem root_timer_period_and_first_tick_witness:
  "oc_action (subscribeAt 5 ''A'' (Some 1000)) = WarmupSubscribed (rootPayload ''A'' (Some 1000))
   \<and> subscriberFilter (oc_state (subscribeAt 5 ''A'' (Some 1000))) (rootPayload ''A'' (Some 1000))
        (subscriberKey exampleFingerprint (rootPayload ''A'' (Some 1000)))
   \<and> (1000::int) = (case result_maxAge (rootPayload ''A'' (Some 1000)) of
                       Some m \<Rightarrow> if m \<noteq> 0 then m else warmupInterval exampleConfig
                     | None \<Rightarrow> warmupInterval exampleConfig)
   \<and> (5, WarmupRequested ''A'')
        \<in> set (warmupSubscriber exampleConfig exampleFingerprint 3 (subscribeAt 5 ''A'' (Some 1000) # []))
   \<and> (1005, WarmupRequested ''A'')
        \<in> set (warmupSubscriber exampleConfig exampleFingerprint 3 (subscribeAt 5 ''A'' (Some 1000) # []))
   \<and> (2005, WarmupRequested ''A'')
        \<in> set (warmupSubscriber exampleConfig exampleFingerprint 3 (subscribeAt 5 ''A'' (Some 1000) # []))"
proof -
  have a: "oc_action (subscribeAt 5 ''A'' (Some 1000)) = WarmupSubscribed (rootPayload ''A'' (Some 1000))"
    by (simp add: subscribeAt_def)
  have b: "subscriberFilter (oc_state (subscribeAt 5 ''A'' (Some 1000))) (rootPayload ''A'' (Some 1000))
        (subscriberKey exampleFingerprint (rootPayload ''A'' (Some 1000)))"
    by (simp add: subscriberFilter_def subscriberKey_def or_str_def truthy_str_def example_defs)
  have c: "(1000::int) = (case result_maxAge (rootPayload ''A'' (Some 1000)) of
                       Some m \<Rightarrow> if m \<noteq> 0 then m else warmupInterval exampleConfig
                     | None \<Rightarrow> warmupInterval exampleConfig)"
    by (simp add: result_maxAge_def rootPayload_def)
  have k: "subscriberKey exampleFingerprint (rootPayload ''A'' (Some 1000)) = ''A''"
    by (simp add: subscriberKey_def or_str_def rootPayload_def)
  have t: "oc_time (subscribeAt 5 ''A'' (Some 1000)) = 5"
    by (simp add: subscribeAt_def)
  from root_timer_period_and_first_tick [OF a b c, of "[]" 3]
  obtain tm where
        ticks: "\<forall>i. tickTime tm i = 5 + i * 1000"
    and mem: "\<forall>i < 3. (tickTime tm i, WarmupRequested ''A'')
                \<in> set (warmupSubscriber exampleConfig exampleFingerprint 3
                        (subscribeAt 5 ''A'' (Some 1000) # []))"
    unfolding k t by auto
  have "(tickTime tm 0, WarmupRequested ''A'')
          \<in> set (warmupSubscriber exampleConfig exampleFingerprint 3 (subscribeAt 5 ''A'' (Some 1000) # []))"
       "(tickTime tm 1, WarmupRequested ''A'')
          \<in> set (warmupSubscriber exampleConfig exampleFingerprint 3 (subscribeAt 5 ''A'' (Some 1000) # []))"
       "(tickTime tm 2, WarmupRequested ''A'')
          \<in> set (warmupSubscriber exampleConfig exampleFingerprint 3 (subscribeAt 5 ''A'' (Some 1000) # []))"
    using mem by simp_all
  then have "(5, WarmupRequested ''A'')
          \<in> set (warmupSubscriber exampleConfig exampleFingerprint 3 (subscribeAt 5 ''A'' (Some 1000) # []))"
       "(1005, WarmupRequested ''A'')
          \<in> set (warmupSubscriber exampleConfig exampleFingerprint 3 (subscribeAt 5 ''A'' (Some 1000) # []))"
       "(2005, WarmupRequested ''A'')
          \<in> set (warmupSubscriber exampleConfig exampleFingerprint 3 (subscribeAt 5 ''A'' (Some 1000) # []))"
    using ticks by simp_all
  with a b c show ?thesis by blast
qed

section \<open>The establisher on a batched result\<close>

text \<open>
  C9: for an execute event with a batch marker whose result holds N sub-results, the
  establisher emits N child subscribe events, the i-th carrying the i-th sub-result's
  request as data, the resolved group key as parent and the batch key, followed by one
  parent action: a join-group event for the group key when a matching group entry exists,
  otherwise a parent subscribe event keyed by the group key.
\<close>

theorem batch_execute_emits_children_and_one_parent:
  assumes "result_debug_batchKey p = Some bk" and "bk \<noteq> []"
      and "result_data_results p = Some rs"
  shows "\<exists>children parent.
           executeHandler gsk clock st (WarmupExecute p) = Inr (children @ [parent])
         \<and> length children = length rs
         \<and> (\<forall>i < length rs. \<exists>sp. children ! i = WarmupSubscribed sp
                \<and> sp_data sp = Some (fst (rs ! i))
                \<and> sp_parent sp = Some (bw_key (selectBatchWarmerSubscriptionKey gsk st p))
                \<and> sp_batchKey sp = Some bk)
         \<and> (if \<exists>e \<in> set (subscriptions st). isBatchWarmerMatch p e
            then \<exists>jp. parent = WarmupJoinGroup jp
                   \<and> jg_parent jp = bw_key (selectBatchWarmerSubscriptionKey gsk st p)
                   \<and> jg_batchKey jp = bk
            else \<exists>sp. parent = WarmupSubscribed sp
                   \<and> sp_key sp = Some (bw_key (selectBatchWarmerSubscriptionKey gsk st p))
                   \<and> sp_parent sp = None
                   \<and> sp_batchKey sp = Some bk
                   \<and> sp_childLastSeenById sp \<noteq> None)"
proof -
  let ?bwk = "selectBatchWarmerSubscriptionKey gsk st p"
  let ?children = "createChildSubscriptionActions p (bw_key ?bwk) (Some bk)"
  let ?cls = "fromEntries (map (\<lambda>(i, c). (gsk c, clock i)) (enumerate 0 ?children))"
  let ?parent = "createParentSubscriptionAction bk ?bwk ?cls p"
  have out: "executeHandler gsk clock st (WarmupExecute p)
               = Inr (map WarmupSubscribed ?children @ [?parent])"
    using assms(1,2)
    by (simp add: executeHandler_def isBatchExecute_def truthy_str_def subscribeBatch_def Let_def)
  have ch: "?children = map (\<lambda>r. (spread_payload p)
              \<lparr> sp_parent := Some (bw_key ?bwk), sp_batchKey := Some bk, sp_data := Some (fst r) \<rparr>) rs"
    using assms(3) by (simp add: createChildSubscriptionActions_def Let_def)
  have len: "length (map WarmupSubscribed ?children) = length rs"
    by (simp add: ch)
  have each: "\<forall>i < length rs. \<exists>sp. map WarmupSubscribed ?children ! i = WarmupSubscribed sp
                \<and> sp_data sp = Some (fst (rs ! i))
                \<and> sp_parent sp = Some (bw_key ?bwk)
                \<and> sp_batchKey sp = Some bk"
    by (simp add: ch)
  have par: "if \<exists>e \<in> set (subscriptions st). isBatchWarmerMatch p e
            then \<exists>jp. ?parent = WarmupJoinGroup jp \<and> jg_parent jp = bw_key ?bwk \<and> jg_batchKey jp = bk
            else \<exists>sp. ?parent = WarmupSubscribed sp \<and> sp_key sp = Some (bw_key ?bwk)
                   \<and> sp_parent sp = None \<and> sp_batchKey sp = Some bk
                   \<and> sp_childLastSeenById sp \<noteq> None"
    using existingKey_iff [of gsk st p]
    by (simp add: createParentSubscriptionAction_def Let_def spread_payload_def)
  from out len each par show ?thesis by blast
qed

theorem batch_execute_emits_children_and_one_parent_witness:
  "result_debug_batchKey batchPayload = Some ''base'' \<and> ''base'' \<noteq> []
   \<and> result_data_results batchPayload
       = Some [([(''base'', JStr ''BTC'')], 0), ([(''base'', JStr ''ETH'')], 1)]
   \<and> (\<exists>children parent.
         executeHandler exampleFingerprint (\<lambda>i. 7) emptyState (WarmupExecute batchPayload)
           = Inr (children @ [parent])
       \<and> length children = 2
       \<and> (\<exists>sp. parent = WarmupSubscribed sp \<and> sp_key sp = Some ''group'' \<and> sp_parent sp = None))"
proof -
  have a: "result_debug_batchKey batchPayload = Some ''base''"
    by (simp add: result_debug_batchKey_def batchPayload_def)
  have b: "''base'' \<noteq> []" by simp
  have c: "result_data_results batchPayload
       = Some [([(''base'', JStr ''BTC'')], 0), ([(''base'', JStr ''ETH'')], 1)]"
    by (simp add: result_data_results_def batchPayload_def)
  have k: "bw_key (selectBatchWarmerSubscriptionKey exampleFingerprint emptyState batchPayload) = ''group''"
    by (simp add: selectBatchWarmerSubscriptionKey_def emptyState_def exampleFingerprint_def
          omit_data_def)
  have e: "\<not> (\<exists>e \<in> set (subscriptions emptyState). isBatchWarmerMatch batchPayload e)"
    by (simp add: emptyState_def)
  from batch_execute_emits_children_and_one_parent [OF a b c, of exampleFingerprint "\<lambda>i. 7" emptyState]
  obtain children parent where
    "executeHandler exampleFingerprint (\<lambda>i. 7) emptyState (WarmupExecute batchPayload)
           = Inr (children @ [parent])"
    "length children = 2"
    "\<exists>sp. parent = WarmupSubscribed sp \<and> sp_key sp = Some ''group'' \<and> sp_parent sp = None"
    unfolding k using e by auto
  with a b c show ?thesis by blast
qed

text \<open>
  C10: an execute event that the partition sends to the batch branch has a truthy
  result.debug.batchKey, so the branch does not throw "No batch key found, state
  invariant violated".
\<close>

theorem batch_branch_never_misses_batch_key:
  assumes "isBatchExecute p"
  shows "subscribeBatch gsk clock st p \<noteq> Inl (Error ''No batch key found, state invariant violated'')
       \<and> executeHandler gsk clock st (WarmupExecute p)
            \<noteq> Inl (Error ''No batch key found, state invariant violated'')"
  using assms
  by (simp add: isBatchExecute_def truthy_str_def executeHandler_def subscribeBatch_def Let_def
           split: option.splits)

theorem batch_branch_never_misses_batch_key_witness:
  "isBatchExecute batchPayload
   \<and> subscribeBatch exampleFingerprint (\<lambda>i. 7) (groupState JNull) batchPayload
        \<noteq> Inl (Error ''No batch key found, state invariant violated'')
   \<and> executeHandler exampleFingerprint (\<lambda>i. 7) (groupState JNull) (WarmupExecute batchPayload)
        \<noteq> Inl (Error ''No batch key found, state invariant violated'')"
proof -
  have h: "isBatchExecute batchPayload"
    by (simp add: isBatchExecute_def truthy_str_def result_debug_batchKey_def batchPayload_def)
  from batch_branch_never_misses_batch_key [OF h] h show ?thesis by blast
qed

end
